theory Spec2Isabelle
  imports Main "HOL-Library.Sublist"
begin

section \<open>The guest roster of the birthday site\<close>

text \<open>
  The repository holds two variants of the same page script. The local-storage variant
  (\<^verbatim>\<open>src/unnamed/part_000\<close>) keeps the roster in \<^verbatim>\<open>appState.guests\<close> and changes it itself;
  the remote variant (\<^verbatim>\<open>src/script.js\<close>) sends every change to a server and replaces the
  roster by the list the server reports. Both are embedded here. The handlers are DOM event
  handlers: what they do is change \<^verbatim>\<open>appState\<close> and show notifications, so each handler
  is a function from the state (and what it reads from its environment) to an
  \<open>outcome\<close>: the state afterwards, the notifications shown, and the value of the call.
  Rendering, focus handling and the copy written to \<^verbatim>\<open>localStorage\<close> do not change
  \<^verbatim>\<open>appState\<close> and are left out.
\<close>

subsection \<open>Strings\<close>

text \<open>
  A JavaScript string is a sequence of UTF-16 code units and \<^verbatim>\<open>length\<close> counts them. A
  \<^typ>\<open>char\<close> stands for a code unit below 256 (the Latin-1 range), where
  \<^verbatim>\<open>trim\<close> and \<^verbatim>\<open>toLowerCase\<close> act code unit by code unit:
  the white space and line terminators trimmed there are TAB, LF, VT, FF, CR, SP and
  NBSP, and the letters with a lower-case partner are A-Z, and U+00C0-U+00DE without the
  multiplication sign U+00D7, each 0x20 below its partner.
\<close>

definition isWhiteSpace :: "char \<Rightarrow> bool" where
  "isWhiteSpace c =
     (c \<in> set [CHR 0x09, CHR 0x0A, CHR 0x0B, CHR 0x0C, CHR 0x0D, CHR 0x20, CHR 0xA0])"

definition trim :: "string \<Rightarrow> string" where
  "trim s = rev (dropWhile isWhiteSpace (rev (dropWhile isWhiteSpace s)))"

definition lowerChar :: "char \<Rightarrow> char" where
  "lowerChar c =
     (let n = (of_char c :: nat) in
      if (0x41 \<le> n \<and> n \<le> 0x5A) \<or> (0xC0 \<le> n \<and> n \<le> 0xDE \<and> n \<noteq> 0xD7)
      then char_of (n + 0x20) else c)"

definition toLowerCase :: "string \<Rightarrow> string" where
  "toLowerCase s = map lowerChar s"

text \<open>
  \<^verbatim>\<open>escapeHtml\<close>: \<^verbatim>\<open>text.replace(/[&<>"']/g, m => map[m])\<close> replaces every occurrence of
  the five characters by its entity and keeps every other character.
\<close>

definition escapeChar :: "char \<Rightarrow> string" where
  "escapeChar c =
     (if c = CHR ''&'' then ''&amp;''
      else if c = CHR ''<'' then ''&lt;''
      else if c = CHR ''>'' then ''&gt;''
      else if c = CHR 0x22 then ''&quot;''
      else if c = CHR 0x27 then ''&#039;''
      else [c])"

definition escapeHtml :: "string \<Rightarrow> string" where
  "escapeHtml text = concat (map escapeChar text)"

subsection \<open>State\<close>

text \<open>
  A guest is the object \<^verbatim>\<open>{ id, name, status }\<close>. The id is a number (\<^verbatim>\<open>1\<close> for the
  sample guest, \<^verbatim>\<open>Date.now()\<close> for an added one), and the status is a plain string: the
  script has no enumeration of statuses.
\<close>

record guest =
  guest_id :: int
  name :: string
  status :: string

record app_state =
  currentSection :: string
  guests :: "guest list"
  photoImage :: "string option"

text \<open>The \<^verbatim>\<open>appState\<close> literal of the local-storage variant, and that of the remote variant.\<close>

definition appState :: app_state where
  "appState =
     \<lparr>currentSection = ''intro'',
      guests = [\<lparr>guest_id = 1, name = ''Sample Guest'', status = ''pending''\<rparr>],
      photoImage = None\<rparr>"

definition appState_remote :: app_state where
  "appState_remote = \<lparr>currentSection = ''intro'', guests = [], photoImage = None\<rparr>"

subsection \<open>Notifications and outcomes\<close>

text \<open>
  \<^verbatim>\<open>showNotification(message, type)\<close> is called with a fixed text (or one built around a
  name, or the server's \<^verbatim>\<open>data.message\<close>) and one of the types \<^verbatim>\<open>'success'\<close>,
  \<^verbatim>\<open>'error'\<close>, \<^verbatim>\<open>'warning'\<close>. A message is named after its text.
\<close>

datatype message =
    Please_enter_a_name
  | Name_is_too_long
  | This_guest_has_already_been_added
  | Added_successfully string
  | Removed string
  | Server_message string
  | Error_adding_guest
  | Failed_to_add_guest
  | Error_loading_guests
  | Error_updating_status
  | Failed_to_update_status
  | Error_removing_guest
  | Guest_removed
  | Failed_to_remove_guest

datatype notification_type = Success | Error | Warning

type_synonym notification = "message \<times> notification_type"

text \<open>
  The value of a call is \<open>returned\<close>: \<open>None\<close> is \<^verbatim>\<open>undefined\<close>, the value of a bare
  \<^verbatim>\<open>return;\<close> and of a function body that runs to its end (for the \<^verbatim>\<open>async\<close> handlers
  of the remote variant, the value their promise resolves to).
\<close>

record outcome =
  state :: app_state
  shown :: "notification list"
  returned :: "guest option"

subsection \<open>The local-storage variant\<close>

definition addGuest :: "app_state \<Rightarrow> string \<Rightarrow> int \<Rightarrow> outcome" where
  \<comment> \<open>\<open>input\<close> is \<^verbatim>\<open>input.value\<close>, \<open>now\<close> is what \<^verbatim>\<open>Date.now()\<close> reads.\<close>
  "addGuest s input now =
     (let nm = trim input in
      if nm = [] then
        \<lparr>state = s, shown = [(Please_enter_a_name, Error)], returned = None\<rparr>
      else if length nm > 50 then
        \<lparr>state = s, shown = [(Name_is_too_long, Error)], returned = None\<rparr>
      else if list_ex (\<lambda>guest. toLowerCase (name guest) = toLowerCase nm) (guests s) then
        \<lparr>state = s, shown = [(This_guest_has_already_been_added, Warning)], returned = None\<rparr>
      else
        let newGuest = \<lparr>guest_id = now, name = escapeHtml nm, status = ''pending''\<rparr> in
        \<lparr>state = s\<lparr>guests := guests s @ [newGuest]\<rparr>,
         shown = [(Added_successfully nm, Success)],
         returned = None\<rparr>)"

text \<open>
  \<^verbatim>\<open>find\<close> yields the first guest with the id, and the assignment
  \<^verbatim>\<open>guest.status = newStatus\<close> changes that object, which is that element of the array.
\<close>

fun assignStatus :: "int \<Rightarrow> string \<Rightarrow> guest list \<Rightarrow> guest list" where
  "assignStatus i newStatus [] = []"
| "assignStatus i newStatus (g # gs) =
     (if guest_id g = i then g\<lparr>status := newStatus\<rparr> # gs
      else g # assignStatus i newStatus gs)"

definition updateGuestStatus :: "app_state \<Rightarrow> int \<Rightarrow> string \<Rightarrow> outcome" where
  "updateGuestStatus s i newStatus =
     (case find (\<lambda>g. guest_id g = i) (guests s) of
        None \<Rightarrow> \<lparr>state = s, shown = [], returned = None\<rparr>
      | Some guest \<Rightarrow>
          \<lparr>state = s\<lparr>guests := assignStatus i newStatus (guests s)\<rparr>,
           shown = [],
           returned = None\<rparr>)"

definition removeGuest :: "app_state \<Rightarrow> int \<Rightarrow> outcome" where
  "removeGuest s i =
     (case find (\<lambda>g. guest_id g = i) (guests s) of
        None \<Rightarrow> \<lparr>state = s, shown = [], returned = None\<rparr>
      | Some guest \<Rightarrow>
          \<lparr>state = s\<lparr>guests := filter (\<lambda>g. guest_id g \<noteq> i) (guests s)\<rparr>,
           shown = [(Removed (name guest), Success)],
           returned = None\<rparr>)"



text \<open>
  A session is a sequence of calls of the three handlers, each from the state the last
  left. (The script also assigns \<^verbatim>\<open>appState.guests\<close> when it restores, clears or imports a
  saved list; those are not operations of the roster.)
\<close>

datatype operation =
    Add string int
  | UpdateStatus int string
  | Remove int

fun step :: "app_state \<Rightarrow> operation \<Rightarrow> app_state" where
  "step s (Add input now) = state (addGuest s input now)"
| "step s (UpdateStatus i newStatus) = state (updateGuestStatus s i newStatus)"
| "step s (Remove i) = state (removeGuest s i)"

definition run :: "app_state \<Rightarrow> operation list \<Rightarrow> app_state" where
  "run s ops = foldl step s ops"

subsection \<open>The remote variant\<close>

text \<open>
  The server is not part of the script: what a \<^verbatim>\<open>fetch\<close> answers is an input of the
  handler. A fetch either throws or resolves to a response; \<^verbatim>\<open>response.json()\<close> either
  throws (\<open>json = None\<close>) or yields the body, of which the script reads \<^verbatim>\<open>success\<close>,
  \<^verbatim>\<open>guests\<close> and \<^verbatim>\<open>message\<close>. A handler runs from its call to its end without another
  handler in between.
\<close>

record data =
  success :: bool
  data_guests :: "guest list"
  data_message :: "string option"

record response =
  ok :: bool
  json :: "data option"

datatype fetched = Throws | Resolves response

definition messageOr :: "string option \<Rightarrow> message \<Rightarrow> message" where
  \<comment> \<open>\<^verbatim>\<open>data.message || default\<close>: a missing or empty message is falsy.\<close>
  "messageOr m dflt = (case m of None \<Rightarrow> dflt | Some t \<Rightarrow> if t = [] then dflt else Server_message t)"

definition loadGuests :: "app_state \<Rightarrow> fetched \<Rightarrow> outcome" where
  "loadGuests s reload =
     (case reload of
        Throws \<Rightarrow> \<lparr>state = s, shown = [(Error_loading_guests, Error)], returned = None\<rparr>
      | Resolves r \<Rightarrow>
          (case json r of
             None \<Rightarrow> \<lparr>state = s, shown = [(Error_loading_guests, Error)], returned = None\<rparr>
           | Some d \<Rightarrow>
               if success d then
                 \<lparr>state = s\<lparr>guests := data_guests d\<rparr>, shown = [], returned = None\<rparr>
               else \<lparr>state = s, shown = [], returned = None\<rparr>))"

definition addGuest_remote :: "app_state \<Rightarrow> string \<Rightarrow> fetched \<Rightarrow> fetched \<Rightarrow> outcome" where
  \<comment> \<open>\<open>post\<close> answers the POST, \<open>reload\<close> the GET of \<^verbatim>\<open>loadGuests\<close> that follows it.\<close>
  "addGuest_remote s input post reload =
     (let nm = trim input in
      if nm = [] then
        \<lparr>state = s, shown = [(Please_enter_a_name, Error)], returned = None\<rparr>
      else if length nm > 50 then
        \<lparr>state = s, shown = [(Name_is_too_long, Error)], returned = None\<rparr>
      else
        (case post of
           Throws \<Rightarrow> \<lparr>state = s, shown = [(Failed_to_add_guest, Error)], returned = None\<rparr>
         | Resolves r \<Rightarrow>
             (case json r of
                None \<Rightarrow> \<lparr>state = s, shown = [(Failed_to_add_guest, Error)], returned = None\<rparr>
              | Some d \<Rightarrow>
                  if \<not> ok r then
                    \<lparr>state = s,
                     shown = [(messageOr (data_message d) Error_adding_guest, Error)],
                     returned = None\<rparr>
                  else
                    let loaded = loadGuests s reload in
                    \<lparr>state = state loaded,
                     shown = (Added_successfully nm, Success) # shown loaded,
                     returned = None\<rparr>)))"

definition updateGuestStatus_remote ::
  "app_state \<Rightarrow> int \<Rightarrow> string \<Rightarrow> fetched \<Rightarrow> fetched \<Rightarrow> outcome" where
  "updateGuestStatus_remote s i newStatus put reload =
     (case put of
        Throws \<Rightarrow> \<lparr>state = s, shown = [(Failed_to_update_status, Error)], returned = None\<rparr>
      | Resolves r \<Rightarrow>
          (case json r of
             None \<Rightarrow> \<lparr>state = s, shown = [(Failed_to_update_status, Error)], returned = None\<rparr>
           | Some d \<Rightarrow>
               if \<not> ok r then
                 \<lparr>state = s,
                  shown = [(messageOr (data_message d) Error_updating_status, Error)],
                  returned = None\<rparr>
               else loadGuests s reload))"

definition removeGuest_remote ::
  "app_state \<Rightarrow> int \<Rightarrow> bool \<Rightarrow> fetched \<Rightarrow> fetched \<Rightarrow> outcome" where
  \<comment> \<open>\<open>answer\<close> is the answer to \<^verbatim>\<open>confirm('Remove this guest?')\<close>.\<close>
  "removeGuest_remote s i answer delete reload =
     (if \<not> answer then \<lparr>state = s, shown = [], returned = None\<rparr>
      else
        (case delete of
           Throws \<Rightarrow> \<lparr>state = s, shown = [(Failed_to_remove_guest, Error)], returned = None\<rparr>
         | Resolves r \<Rightarrow>
             (case json r of
                None \<Rightarrow> \<lparr>state = s, shown = [(Failed_to_remove_guest, Error)], returned = None\<rparr>
              | Some d \<Rightarrow>
                  if \<not> ok r then
                    \<lparr>state = s,
                     shown = [(messageOr (data_message d) Error_removing_guest, Error)],
                     returned = None\<rparr>
                  else
                    let loaded = loadGuests s reload in
                    \<lparr>state = state loaded,
                     shown = (Guest_removed, Success) # shown loaded,
                     returned = None\<rparr>)))"

text \<open>
  What a handler of the remote variant gets out of its two requests. A change is
  \<open>accepted\<close> when the request resolves, its body parses and \<^verbatim>\<open>response.ok\<close> holds; a
  reload has \<open>reported\<close> a list when the request resolves, its body parses and
  \<^verbatim>\<open>data.success\<close> holds. Every other answer is a failed persistence call.
\<close>

definition accepted :: "fetched \<Rightarrow> bool" where
  "accepted f =
     (case f of
        Throws \<Rightarrow> False
      | Resolves r \<Rightarrow> (case json r of None \<Rightarrow> False | Some d \<Rightarrow> ok r))"

definition reported :: "fetched \<Rightarrow> guest list option" where
  "reported f =
     (case f of
        Throws \<Rightarrow> None
      | Resolves r \<Rightarrow>
          (case json r of
             None \<Rightarrow> None
           | Some d \<Rightarrow> if success d then Some (data_guests d) else None))"

subsection \<open>What the page passes to the handlers\<close>

text \<open>
  The status handler is called from the \<^verbatim>\<open>select\<close> element that \<^verbatim>\<open>createGuestElement\<close>
  builds, with the value of one of its three options.
\<close>

definition statusOptions :: "string list" where
  "statusOptions = [''pending'', ''confirmed'', ''declined'']"

fun fromSelect :: "operation \<Rightarrow> bool" where
  "fromSelect (UpdateStatus i newStatus) = (newStatus \<in> set statusOptions)"
| "fromSelect (Add input now) = True"
| "fromSelect (Remove i) = True"

text \<open>
  The clock is fresh along a session when every \<^verbatim>\<open>Date.now()\<close> that an add reads is not
  the id of a guest in the roster at that moment.
\<close>

fun freshClock :: "app_state \<Rightarrow> operation list \<Rightarrow> bool" where
  "freshClock s [] = True"
| "freshClock s (Add input now # ops) =
     (now \<notin> set (map guest_id (guests s)) \<and> freshClock (step s (Add input now)) ops)"
| "freshClock s (UpdateStatus i newStatus # ops) =
     freshClock (step s (UpdateStatus i newStatus)) ops"
| "freshClock s (Remove i # ops) = freshClock (step s (Remove i)) ops"

section \<open>Validation\<close>

text \<open>
  C2. An input that is empty after trimming, or longer than 50 characters after trimming,
  is refused in both variants: the handler shows the validation error for it (``Please
  enter a name'', or ``Name is too long (max 50 characters)'', of type error), and the
  state afterwards is the state before, so no record is added and none is changed. The
  remote variant refuses before it sends anything, whatever the server would answer.
\<close>

theorem addGuest_validation:
  assumes "trim input = [] \<or> length (trim input) > 50"
  shows "state (addGuest s input now) = s
       \<and> state (addGuest_remote s input post reload) = s
       \<and> shown (addGuest s input now) =
           [(if trim input = [] then Please_enter_a_name else Name_is_too_long, Error)]
       \<and> shown (addGuest_remote s input post reload) = shown (addGuest s input now)"
  using assms by (auto simp: addGuest_def addGuest_remote_def Let_def)

theorem addGuest_validation_witness:
  "trim ''   '' = []
   \<and> state (addGuest appState ''   '' 1700000000000) = appState
   \<and> state (addGuest_remote appState ''   '' Throws Throws) = appState
   \<and> shown (addGuest appState ''   '' 1700000000000) = [(Please_enter_a_name, Error)]
   \<and> shown (addGuest_remote appState ''   '' Throws Throws) = [(Please_enter_a_name, Error)]"
proof -
  have h: "trim ''   '' = []" by code_simp
  from addGuest_validation [of "''   ''" appState 1700000000000 Throws Throws] h
  show ?thesis by simp
qed

section \<open>Duplicates\<close>

text \<open>
  What the check of the local-storage variant does: it lower-cases the trimmed input and
  the names the roster holds, which are the escaped ones, and refuses the add when two of
  them are equal. It then shows ``This guest has already been added'' (of type warning)
  and the state afterwards is the state before.
\<close>

lemma duplicate_check_reads_stored_names:
  assumes "trim input \<noteq> []" and "length (trim input) \<le> 50"
    and "\<exists>g \<in> set (guests s). toLowerCase (name g) = toLowerCase (trim input)"
  shows "state (addGuest s input now) = s
       \<and> shown (addGuest s input now) = [(This_guest_has_already_been_added, Warning)]"
  using assms by (simp add: addGuest_def Let_def list_ex_iff)

text \<open>
  C3. An add whose name equals, up to case, the name of a guest already in the roster is
  to be refused as a duplicate, with the roster unchanged. The script misses this for
  every name that holds one of the five escaped characters: the roster holds the escaped
  name, and the check compares the input as typed with it. After ``Tom & Jerry'' has been
  added, the input ``tom & jerry'', which equals it once both are lower-cased, is not
  refused: the success notification is shown and the roster has a third record.
\<close>

theorem duplicate_with_escaped_character_is_added:
  "toLowerCase (trim ''Tom & Jerry'') = toLowerCase (trim ''tom & jerry'')
   \<and> map name (guests (run appState [Add ''Tom & Jerry'' 1700000000000])) =
       [''Sample Guest'', ''Tom &amp; Jerry'']
   \<and> shown (addGuest (run appState [Add ''Tom & Jerry'' 1700000000000])
        ''tom & jerry'' 1700000000001) =
       [(Added_successfully ''tom & jerry'', Success)]
   \<and> map name (guests (state (addGuest (run appState [Add ''Tom & Jerry'' 1700000000000])
        ''tom & jerry'' 1700000000001))) =
       [''Sample Guest'', ''Tom &amp; Jerry'', ''tom &amp; jerry'']"
  by code_simp

section \<open>Adding a guest\<close>




section \<open>Ids that the roster does not hold\<close>

lemma find_guest_None: "find (\<lambda>g. guest_id g = i) gs = None \<longleftrightarrow> i \<notin> guest_id ` set gs"
  by (auto simp: find_None_iff)

lemma find_guest_Some:
  "i \<in> guest_id ` set gs \<Longrightarrow> \<exists>g. find (\<lambda>g. guest_id g = i) gs = Some g \<and> g \<in> set gs \<and> guest_id g = i"
  by (induction gs) auto

text \<open>
  C4, as the script has it. In the local-storage variant, for an id that no guest of the
  roster has, \<^verbatim>\<open>updateGuestStatus\<close> and \<^verbatim>\<open>removeGuest\<close> do nothing at all: the state stays
  as it was, no notification is shown, and the call has no value. The guard
  \<^verbatim>\<open>if (guest)\<close> has no other branch, so no error of any kind is reported.
\<close>

theorem unknown_id_is_ignored:
  assumes "i \<notin> guest_id ` set (guests s)"
  shows "updateGuestStatus s i newStatus = \<lparr>state = s, shown = [], returned = None\<rparr>
       \<and> removeGuest s i = \<lparr>state = s, shown = [], returned = None\<rparr>"
  using assms by (simp add: updateGuestStatus_def removeGuest_def find_guest_None [symmetric])

theorem unknown_id_is_ignored_witness:
  "2 \<notin> guest_id ` set (guests appState)
   \<and> updateGuestStatus appState 2 ''confirmed'' = \<lparr>state = appState, shown = [], returned = None\<rparr>
   \<and> removeGuest appState 2 = \<lparr>state = appState, shown = [], returned = None\<rparr>"
proof -
  have h: "2 \<notin> guest_id ` set (guests appState)" by (simp add: appState_def)
  from unknown_id_is_ignored [OF h, of "''confirmed''"] h show ?thesis by blast
qed

text \<open>
  C4 as stated fails: for the id 2, which the initial roster does not hold, neither
  handler shows a notification or returns anything, so no error result is produced.
\<close>

theorem unknown_id_counterexample:
  "2 \<notin> guest_id ` set (guests appState)
   \<and> shown (updateGuestStatus appState 2 ''confirmed'') = []
   \<and> returned (updateGuestStatus appState 2 ''confirmed'') = None
   \<and> shown (removeGuest appState 2) = []
   \<and> returned (removeGuest appState 2) = None"
  by (simp add: appState_def updateGuestStatus_def removeGuest_def)

section \<open>Updating a status\<close>

lemma assignStatus_at:
  "i \<in> guest_id ` set gs \<Longrightarrow>
   \<exists>k < length gs. guest_id (gs ! k) = i \<and> (\<forall>j < k. guest_id (gs ! j) \<noteq> i)
      \<and> assignStatus i st gs = gs[k := (gs ! k)\<lparr>status := st\<rparr>]"
proof (induction gs)
  case Nil
  then show ?case by simp
next
  case (Cons g gs)
  show ?case
  proof (cases "guest_id g = i")
    case True
    then have "0 < length (g # gs) \<and> guest_id ((g # gs) ! 0) = i \<and> (\<forall>j < 0. guest_id ((g # gs) ! j) \<noteq> i)
      \<and> assignStatus i st (g # gs) = (g # gs)[0 := ((g # gs) ! 0)\<lparr>status := st\<rparr>]"
      by simp
    then show ?thesis by blast
  next
    case False
    with Cons.prems have "i \<in> guest_id ` set gs" by auto
    from Cons.IH [OF this] obtain k where k: "k < length gs" "guest_id (gs ! k) = i"
      "\<forall>j < k. guest_id (gs ! j) \<noteq> i" "assignStatus i st gs = gs[k := (gs ! k)\<lparr>status := st\<rparr>]"
      by blast
    have "Suc k < length (g # gs) \<and> guest_id ((g # gs) ! Suc k) = i
      \<and> (\<forall>j < Suc k. guest_id ((g # gs) ! j) \<noteq> i)
      \<and> assignStatus i st (g # gs) = (g # gs)[Suc k := ((g # gs) ! Suc k)\<lparr>status := st\<rparr>]"
      using k False by (auto simp: less_Suc_eq_0_disj)
    then show ?thesis by blast
  qed
qed

lemma assignStatus_ids [simp]: "map guest_id (assignStatus i st gs) = map guest_id gs"
  by (induction gs) auto

lemma assignStatus_names [simp]: "map name (assignStatus i st gs) = map name gs"
  by (induction gs) auto

lemma assignStatus_length [simp]: "length (assignStatus i st gs) = length gs"
  by (induction gs) auto

text \<open>
  C5. In the local-storage variant, for an id that some guest of the roster has,
  \<^verbatim>\<open>updateGuestStatus\<close> overwrites the status of one record and nothing else: the state
  afterwards is the state before with the record at one position \<open>k\<close> (the first one with
  that id) replaced by itself with the new status. So the id and the name of that record,
  every record at another position, the number of records and their order are unchanged,
  as are the other fields of the state.
\<close>

theorem updateGuestStatus_only_status:
  assumes "i \<in> guest_id ` set (guests s)"
  shows "(\<exists>k < length (guests s).
            guest_id (guests s ! k) = i
          \<and> (\<forall>j < k. guest_id (guests s ! j) \<noteq> i)
          \<and> state (updateGuestStatus s i newStatus) =
              s\<lparr>guests := (guests s)[k := (guests s ! k)\<lparr>status := newStatus\<rparr>]\<rparr>)
       \<and> length (guests (state (updateGuestStatus s i newStatus))) = length (guests s)
       \<and> map guest_id (guests (state (updateGuestStatus s i newStatus))) = map guest_id (guests s)
       \<and> map name (guests (state (updateGuestStatus s i newStatus))) = map name (guests s)
       \<and> shown (updateGuestStatus s i newStatus) = []"
proof -
  from find_guest_Some [OF assms] obtain g where g: "find (\<lambda>g. guest_id g = i) (guests s) = Some g"
    by blast
  then have upd: "updateGuestStatus s i newStatus =
      \<lparr>state = s\<lparr>guests := assignStatus i newStatus (guests s)\<rparr>, shown = [], returned = None\<rparr>"
    by (simp add: updateGuestStatus_def)
  from assignStatus_at [OF assms, of newStatus] show ?thesis
    unfolding upd by auto
qed

theorem updateGuestStatus_only_status_witness:
  "1 \<in> guest_id ` set (guests appState)
   \<and> state (updateGuestStatus appState 1 ''confirmed'') =
       appState\<lparr>guests := [\<lparr>guest_id = 1, name = ''Sample Guest'', status = ''confirmed''\<rparr>]\<rparr>
   \<and> shown (updateGuestStatus appState 1 ''confirmed'') = []"
proof -
  have h: "1 \<in> guest_id ` set (guests appState)" by (simp add: appState_def)
  from updateGuestStatus_only_status [OF h, of "''confirmed''"] h show ?thesis
    by (auto simp: appState_def)
qed

section \<open>Removing a guest\<close>

lemma one_guest_per_id:
  "i \<in> guest_id ` set gs \<Longrightarrow> distinct (map guest_id gs) \<Longrightarrow>
   length (filter (\<lambda>g. guest_id g = i) gs) = Suc 0"
proof (induction gs)
  case Nil
  then show ?case by simp
next
  case (Cons g gs)
  show ?case
  proof (cases "guest_id g = i")
    case True
    with Cons.prems have "i \<notin> guest_id ` set gs" by simp
    then have "filter (\<lambda>g. guest_id g = i) gs = []"
      by (auto simp: filter_empty_conv)
    with True show ?thesis by simp
  next
    case False
    with Cons show ?thesis by auto
  qed
qed

text \<open>
  C6, as the script has it. In the local-storage variant, for an id that some guest of the
  roster has, \<^verbatim>\<open>removeGuest\<close> keeps exactly the records with another id, in their order:
  the id is absent from the roster afterwards, the records left are a subsequence of the
  roster before, and the length drops by the number of records that had the id, which is
  exactly 1 when the ids of the roster are pairwise distinct. The name of the guest found
  is shown in the success notification; the call itself has no value.
\<close>

theorem removeGuest_removes:
  assumes "i \<in> guest_id ` set (guests s)"
  shows "state (removeGuest s i) = s\<lparr>guests := filter (\<lambda>g. guest_id g \<noteq> i) (guests s)\<rparr>
       \<and> i \<notin> guest_id ` set (guests (state (removeGuest s i)))
       \<and> subseq (guests (state (removeGuest s i))) (guests s)
       \<and> length (guests (state (removeGuest s i)))
           + length (filter (\<lambda>g. guest_id g = i) (guests s)) = length (guests s)
       \<and> (distinct (map guest_id (guests s)) \<longrightarrow>
            length (guests (state (removeGuest s i))) + 1 = length (guests s))
       \<and> (\<exists>g \<in> set (guests s). guest_id g = i
            \<and> shown (removeGuest s i) = [(Removed (name g), Success)])
       \<and> returned (removeGuest s i) = None"
proof -
  from find_guest_Some [OF assms] obtain g where g: "find (\<lambda>g. guest_id g = i) (guests s) = Some g"
    "g \<in> set (guests s)" "guest_id g = i"
    by blast
  then have rem: "removeGuest s i =
      \<lparr>state = s\<lparr>guests := filter (\<lambda>g. guest_id g \<noteq> i) (guests s)\<rparr>,
       shown = [(Removed (name g), Success)], returned = None\<rparr>"
    by (simp add: removeGuest_def)
  have len: "length (filter (\<lambda>g. guest_id g \<noteq> i) (guests s))
           + length (filter (\<lambda>g. guest_id g = i) (guests s)) = length (guests s)"
    using sum_length_filter_compl [of "\<lambda>g. guest_id g = i" "guests s"] by simp
  have one: "distinct (map guest_id (guests s)) \<Longrightarrow>
      length (filter (\<lambda>g. guest_id g = i) (guests s)) = Suc 0"
    using assms by (rule one_guest_per_id)
  show ?thesis unfolding rem using g len one by auto
qed

theorem removeGuest_removes_witness:
  "1 \<in> guest_id ` set (guests appState) \<and> distinct (map guest_id (guests appState))
   \<and> guests (state (removeGuest appState 1)) = []
   \<and> length (guests (state (removeGuest appState 1))) + 1 = length (guests appState)
   \<and> shown (removeGuest appState 1) = [(Removed ''Sample Guest'', Success)]
   \<and> returned (removeGuest appState 1) = None"
proof -
  have h: "1 \<in> guest_id ` set (guests appState)" by (simp add: appState_def)
  have d: "distinct (map guest_id (guests appState))" by (simp add: appState_def)
  from removeGuest_removes [OF h] h d show ?thesis
    by (auto simp: appState_def)
qed

text \<open>
  C6 as stated fails twice. Two adds within one millisecond leave two guests with one id,
  and removing that id drops the length from 3 to 1; and the call returns
  \<^verbatim>\<open>undefined\<close>, not the removed record.
\<close>

theorem removeGuest_counterexample:
  "1700000000000 \<in> guest_id ` set (guests (run appState
        [Add ''Alice'' 1700000000000, Add ''Bob'' 1700000000000]))
   \<and> length (guests (run appState [Add ''Alice'' 1700000000000, Add ''Bob'' 1700000000000])) = 3
   \<and> length (guests (state (removeGuest
        (run appState [Add ''Alice'' 1700000000000, Add ''Bob'' 1700000000000])
        1700000000000))) = 1
   \<and> 1 \<in> guest_id ` set (guests appState)
   \<and> returned (removeGuest appState 1) = None"
  by code_simp

section \<open>Sessions\<close>

text \<open>What one call can do to the roster, and how a session unfolds.\<close>

lemma assignStatus_set:
  "g \<in> set (assignStatus i st gs) \<Longrightarrow> g \<in> set gs \<or> (\<exists>h \<in> set gs. g = h\<lparr>status := st\<rparr>)"
  by (induction gs) (auto split: if_splits)

lemma guests_addGuest:
  "guests (state (addGuest s input now)) = guests s
   \<or> (trim input \<noteq> [] \<and> length (trim input) \<le> 50
      \<and> guests (state (addGuest s input now)) =
          guests s @ [\<lparr>guest_id = now, name = escapeHtml (trim input), status = ''pending''\<rparr>])"
  by (simp add: addGuest_def Let_def)

lemma guests_updateGuestStatus:
  "guests (state (updateGuestStatus s i st)) = guests s
   \<or> guests (state (updateGuestStatus s i st)) = assignStatus i st (guests s)"
  by (simp add: updateGuestStatus_def split: option.splits)

lemma guests_removeGuest:
  "guests (state (removeGuest s i)) = guests s
   \<or> guests (state (removeGuest s i)) = filter (\<lambda>g. guest_id g \<noteq> i) (guests s)"
  by (simp add: removeGuest_def split: option.splits)

lemma run_Nil [simp]: "run s [] = s"
  by (simp add: run_def)

lemma run_Cons [simp]: "run s (x # ops) = run (step s x) ops"
  by (simp add: run_def)

subsection \<open>Statuses\<close>

lemma step_status:
  assumes "\<forall>g \<in> set (guests s). status g \<in> set statusOptions" and "fromSelect x"
  shows "\<forall>g \<in> set (guests (step s x)). status g \<in> set statusOptions"
proof (cases x)
  case (Add input now)
  with assms(1) guests_addGuest [of s input now] show ?thesis
    by (auto simp: statusOptions_def)
next
  case (UpdateStatus i st)
  with assms have st: "st \<in> set statusOptions" by simp
  show ?thesis
  proof
    fix g assume "g \<in> set (guests (step s x))"
    with UpdateStatus guests_updateGuestStatus [of s i st]
    have "g \<in> set (guests s) \<or> g \<in> set (assignStatus i st (guests s))" by auto
    with assignStatus_set [of g i st "guests s"]
    have "g \<in> set (guests s) \<or> (\<exists>h \<in> set (guests s). g = h\<lparr>status := st\<rparr>)" by blast
    with assms(1) st show "status g \<in> set statusOptions" by auto
  qed
next
  case (Remove i)
  with assms(1) guests_removeGuest [of s i] show ?thesis by auto
qed

lemma run_status:
  "\<forall>g \<in> set (guests s). status g \<in> set statusOptions \<Longrightarrow> \<forall>x \<in> set ops. fromSelect x \<Longrightarrow>
   \<forall>g \<in> set (guests (run s ops)). status g \<in> set statusOptions"
proof (induction ops arbitrary: s)
  case Nil
  then show ?case by simp
next
  case (Cons x ops)
  from Cons.prems have "\<forall>g \<in> set (guests (step s x)). status g \<in> set statusOptions"
    by (intro step_status) auto
  with Cons show ?case by simp
qed

text \<open>
  C7, as the script has it. \<^verbatim>\<open>updateGuestStatus\<close> stores the status it is given and checks
  nothing. When every status update of a session passes one of the three option values of
  the \<^verbatim>\<open>select\<close> element, every guest of every roster reached from the initial state by
  adds, status updates and removals has one of the three statuses \<^verbatim>\<open>'pending'\<close>,
  \<^verbatim>\<open>'confirmed'\<close>, \<^verbatim>\<open>'declined'\<close>. The same holds from any roster whose statuses are among
  the three (lemma \<open>run_status\<close>).
\<close>

theorem status_stays_an_option:
  assumes "\<forall>x \<in> set ops. fromSelect x"
  shows "\<forall>g \<in> set (guests (run appState ops)). status g \<in> set statusOptions"
proof (rule run_status [OF _ assms])
  show "\<forall>g \<in> set (guests appState). status g \<in> set statusOptions"
    by (simp add: appState_def statusOptions_def)
qed

theorem status_stays_an_option_witness:
  "fromSelect (Add ''Alice'' 1700000000000) \<and> fromSelect (UpdateStatus 1 ''declined'')
   \<and> fromSelect (Remove 1700000000000)
   \<and> map status (guests (run appState
        [Add ''Alice'' 1700000000000, UpdateStatus 1 ''declined'', Remove 1700000000000])) =
       [''declined'']
   \<and> ''declined'' \<in> set statusOptions"
proof -
  let ?ops = "[Add ''Alice'' 1700000000000, UpdateStatus 1 ''declined'', Remove 1700000000000]"
  have h: "\<forall>x \<in> set ?ops. fromSelect x" by (simp add: statusOptions_def)
  have r: "map status (guests (run appState ?ops)) = [''declined'']" by code_simp
  then have m: "\<exists>g \<in> set (guests (run appState ?ops)). status g = ''declined''"
    by (cases "guests (run appState ?ops)") auto
  from status_stays_an_option [OF h] m have "''declined'' \<in> set statusOptions"
    by auto
  with h r show ?thesis by simp
qed

text \<open>
  C7 as stated fails: a status update with the string \<^verbatim>\<open>'maybe'\<close> on the sample guest
  stores \<^verbatim>\<open>'maybe'\<close>.
\<close>

theorem status_counterexample:
  "map status (guests (run appState [UpdateStatus 1 ''maybe''])) = [''maybe'']
   \<and> ''maybe'' \<notin> set [''pending'', ''confirmed'', ''declined'']"
  by code_simp

subsection \<open>Names\<close>

lemma trim_ends:
  assumes "trim x \<noteq> []"
  shows "\<not> isWhiteSpace (hd (trim x))" and "\<not> isWhiteSpace (last (trim x))"
proof -
  define y where "y = dropWhile isWhiteSpace x"
  define z where "z = dropWhile isWhiteSpace (rev y)"
  have t: "trim x = rev z" by (simp add: trim_def y_def z_def)
  with assms have z: "z \<noteq> []" by simp
  then have "\<not> isWhiteSpace (hd z)" unfolding z_def by (rule hd_dropWhile)
  with z t show "\<not> isWhiteSpace (last (trim x))" by (simp add: last_rev)
  from z have ry: "rev y \<noteq> []" by (auto simp: z_def)
  then have y: "y \<noteq> []" by simp
  then have hy: "\<not> isWhiteSpace (hd y)" unfolding y_def by (rule hd_dropWhile)
  obtain p where p: "rev y = p @ z"
    using takeWhile_dropWhile_id [of isWhiteSpace "rev y"] z_def by metis
  with z have "last z = last (rev y)" by simp
  also have "\<dots> = hd y" using y by (simp add: last_rev)
  finally have "last z = hd y" .
  with hy z t show "\<not> isWhiteSpace (hd (trim x))" by (simp add: hd_rev)
qed

lemma trim_fixed:
  assumes "y \<noteq> []" and "\<not> isWhiteSpace (hd y)" and "\<not> isWhiteSpace (last y)"
  shows "trim y = y"
proof -
  from assms(1,2) have a: "dropWhile isWhiteSpace y = y"
    by (cases y) auto
  from assms(1,3) have "dropWhile isWhiteSpace (rev y) = rev y"
    by (cases "rev y") (auto simp: last_rev [symmetric] simp del: rev_is_Nil_conv)
  with a show ?thesis by (simp add: trim_def)
qed

lemma escapeChar_ends:
  "escapeChar c \<noteq> []" "\<not> isWhiteSpace c \<Longrightarrow> \<not> isWhiteSpace (hd (escapeChar c))"
  "\<not> isWhiteSpace c \<Longrightarrow> \<not> isWhiteSpace (last (escapeChar c))"
  by (simp_all add: escapeChar_def isWhiteSpace_def)

lemma length_escapeChar: "1 \<le> length (escapeChar c)" "length (escapeChar c) \<le> 6"
  by (simp_all add: escapeChar_def)

lemma length_escapeHtml: "length y \<le> length (escapeHtml y)" "length (escapeHtml y) \<le> 6 * length y"
proof -
  show "length y \<le> length (escapeHtml y)"
    unfolding escapeHtml_def
  proof (induction y)
    case (Cons c y)
    with length_escapeChar(1) [of c] show ?case by simp
  qed simp
  show "length (escapeHtml y) \<le> 6 * length y"
    unfolding escapeHtml_def
  proof (induction y)
    case (Cons c y)
    with length_escapeChar(2) [of c] show ?case by simp
  qed simp
qed

lemma escapeHtml_ends:
  assumes "y \<noteq> []" and "\<not> isWhiteSpace (hd y)" and "\<not> isWhiteSpace (last y)"
  shows "escapeHtml y \<noteq> []" and "\<not> isWhiteSpace (hd (escapeHtml y))"
    and "\<not> isWhiteSpace (last (escapeHtml y))"
proof -
  from assms(1) length_escapeHtml(1) [of y] show ne: "escapeHtml y \<noteq> []" by (cases y) auto
  from assms(1,2) escapeChar_ends(1,2) [of "hd y"] show "\<not> isWhiteSpace (hd (escapeHtml y))"
    by (cases y) (auto simp: escapeHtml_def)
  from assms(1) obtain ys c where y: "y = ys @ [c]" by (cases y rule: rev_cases) auto
  with assms(3) escapeChar_ends(1,3) [of c] show "\<not> isWhiteSpace (last (escapeHtml y))"
    by (simp add: escapeHtml_def)
qed

lemma stored_name:
  assumes "trim input \<noteq> []" and "length (trim input) \<le> 50"
  shows "trim (escapeHtml (trim input)) = escapeHtml (trim input)"
    and "escapeHtml (trim input) \<noteq> []" and "length (escapeHtml (trim input)) \<le> 300"
proof -
  note e = escapeHtml_ends [OF assms(1) trim_ends [OF assms(1)]]
  from e show "trim (escapeHtml (trim input)) = escapeHtml (trim input)" by (rule trim_fixed)
  from e show "escapeHtml (trim input) \<noteq> []" by simp
  from assms(2) length_escapeHtml(2) [of "trim input"]
  show "length (escapeHtml (trim input)) \<le> 300" by simp
qed

lemma step_names:
  assumes "\<forall>g \<in> set (guests s). \<exists>input. name g = escapeHtml (trim input) \<and> trim input \<noteq> []
             \<and> length (trim input) \<le> 50"
  shows "\<forall>g \<in> set (guests (step s x)). \<exists>input. name g = escapeHtml (trim input) \<and> trim input \<noteq> []
             \<and> length (trim input) \<le> 50"
proof (cases x)
  case (Add input now)
  with assms guests_addGuest [of s input now] show ?thesis by fastforce
next
  case (UpdateStatus i st)
  show ?thesis
  proof
    fix g assume "g \<in> set (guests (step s x))"
    with UpdateStatus guests_updateGuestStatus [of s i st]
    have "g \<in> set (guests s) \<or> g \<in> set (assignStatus i st (guests s))" by auto
    with assignStatus_set [of g i st "guests s"]
    have "g \<in> set (guests s) \<or> (\<exists>h \<in> set (guests s). g = h\<lparr>status := st\<rparr>)" by blast
    then have "\<exists>h \<in> set (guests s). name g = name h" by fastforce
    with assms show "\<exists>input. name g = escapeHtml (trim input) \<and> trim input \<noteq> []
             \<and> length (trim input) \<le> 50" by auto
  qed
next
  case (Remove i)
  with assms guests_removeGuest [of s i] show ?thesis by auto
qed

lemma run_names:
  "\<forall>g \<in> set (guests s). \<exists>input. name g = escapeHtml (trim input) \<and> trim input \<noteq> []
             \<and> length (trim input) \<le> 50 \<Longrightarrow>
   \<forall>g \<in> set (guests (run s ops)). \<exists>input. name g = escapeHtml (trim input) \<and> trim input \<noteq> []
             \<and> length (trim input) \<le> 50"
proof (induction ops arbitrary: s)
  case Nil
  then show ?case by simp
next
  case (Cons x ops)
  from Cons.IH [OF step_names [OF Cons.prems]] show ?case by simp
qed

text \<open>
  C8, as the script has it. The length check of \<^verbatim>\<open>addGuest\<close> is on the trimmed input, and
  the name stored is its escaped form, where one character becomes up to six. In every
  roster reached from the initial state by adds, status updates and removals, every stored
  name is the escaped form of a trimmed input that is not empty and has at most 50
  characters; the stored name itself is unchanged by trimming, is not empty, and has at
  most 300 characters.
\<close>

theorem stored_names_are_escaped_inputs:
  "\<forall>g \<in> set (guests (run appState ops)).
     (\<exists>input. name g = escapeHtml (trim input) \<and> trim input \<noteq> [] \<and> length (trim input) \<le> 50)
     \<and> trim (name g) = name g \<and> name g \<noteq> [] \<and> length (name g) \<le> 300"
proof
  fix g assume g: "g \<in> set (guests (run appState ops))"
  have "''Sample Guest'' = escapeHtml (trim ''Sample Guest'')" "trim ''Sample Guest'' \<noteq> []"
    "length (trim ''Sample Guest'') \<le> 50"
    by code_simp+
  then have "\<forall>g \<in> set (guests appState). \<exists>input. name g = escapeHtml (trim input)
      \<and> trim input \<noteq> [] \<and> length (trim input) \<le> 50"
    unfolding appState_def by fastforce
  from run_names [OF this, of ops] g obtain input where
    i: "name g = escapeHtml (trim input)" "trim input \<noteq> []" "length (trim input) \<le> 50"
    by blast
  with stored_name [OF i(2,3)]
  show "(\<exists>input. name g = escapeHtml (trim input) \<and> trim input \<noteq> [] \<and> length (trim input) \<le> 50)
     \<and> trim (name g) = name g \<and> name g \<noteq> [] \<and> length (name g) \<le> 300"
    by auto
qed

theorem stored_names_witness:
  "map name (guests (run appState [Add '' Tom & Jerry '' 1700000000000])) =
     [''Sample Guest'', ''Tom &amp; Jerry'']
   \<and> trim ''Tom &amp; Jerry'' = ''Tom &amp; Jerry''
   \<and> length ''Tom &amp; Jerry'' \<le> 300"
proof -
  let ?ops = "[Add '' Tom & Jerry '' 1700000000000]"
  have r: "map name (guests (run appState ?ops)) = [''Sample Guest'', ''Tom &amp; Jerry'']"
    by code_simp
  have "''Tom &amp; Jerry'' \<in> set (map name (guests (run appState ?ops)))"
    unfolding r by simp
  then have "\<exists>g \<in> set (guests (run appState ?ops)). name g = ''Tom &amp; Jerry''"
    by auto
  with stored_names_are_escaped_inputs [of ?ops]
  have "trim ''Tom &amp; Jerry'' = ''Tom &amp; Jerry'' \<and> length ''Tom &amp; Jerry'' \<le> 300"
    by metis
  with r show ?thesis by blast
qed

text \<open>
  C8 as stated fails: the input of 50 ampersands is valid, and the name stored for it has
  250 characters after trimming.
\<close>

theorem stored_names_counterexample:
  "trim (replicate 50 (CHR ''&'')) \<noteq> [] \<and> length (trim (replicate 50 (CHR ''&''))) \<le> 50
   \<and> map (\<lambda>g. length (trim (name g)))
        (guests (run appState [Add (replicate 50 (CHR ''&'')) 1700000000000])) = [12, 250]"
  by code_simp

subsection \<open>Ids\<close>

lemma step_distinct:
  assumes "distinct (map guest_id (guests s))"
    and "case x of Add input now \<Rightarrow> now \<notin> set (map guest_id (guests s)) | _ \<Rightarrow> True"
  shows "distinct (map guest_id (guests (step s x)))"
proof (cases x)
  case (Add input now)
  with assms guests_addGuest [of s input now] show ?thesis by auto
next
  case (UpdateStatus i st)
  with assms(1) guests_updateGuestStatus [of s i st] show ?thesis by auto
next
  case (Remove i)
  with assms(1) guests_removeGuest [of s i] show ?thesis by (auto simp: distinct_map_filter)
qed

lemma run_distinct:
  "distinct (map guest_id (guests s)) \<Longrightarrow> freshClock s ops \<Longrightarrow>
   distinct (map guest_id (guests (run s ops)))"
proof (induction ops arbitrary: s)
  case Nil
  then show ?case by simp
next
  case (Cons x ops)
  then have "distinct (map guest_id (guests (step s x)))" "freshClock (step s x) ops"
    by (cases x; auto intro!: step_distinct simp del: step.simps)+
  with Cons.IH show ?case by simp
qed

text \<open>
  C9, as the script has it. \<^verbatim>\<open>addGuest\<close> takes \<^verbatim>\<open>Date.now()\<close> as the id and compares it
  with nothing. When the clock is fresh along a session (every reading an add takes is not
  an id of the roster at that moment), the ids of every roster reached from the initial
  state by adds, status updates and removals are pairwise distinct. The same holds from
  any roster with pairwise distinct ids (lemma \<open>run_distinct\<close>).
\<close>

theorem ids_distinct_on_fresh_clock:
  assumes "freshClock appState ops"
  shows "distinct (map guest_id (guests (run appState ops)))"
  using assms by (intro run_distinct) (simp_all add: appState_def)

theorem ids_distinct_on_fresh_clock_witness:
  "freshClock appState [Add ''Alice'' 1700000000000, Add ''Bob'' 1700000000001]
   \<and> map guest_id (guests (run appState [Add ''Alice'' 1700000000000, Add ''Bob'' 1700000000001])) =
       [1, 1700000000000, 1700000000001]
   \<and> distinct (map guest_id (guests (run appState
        [Add ''Alice'' 1700000000000, Add ''Bob'' 1700000000001])))"
proof -
  have h: "freshClock appState [Add ''Alice'' 1700000000000, Add ''Bob'' 1700000000001]"
    by code_simp
  have r: "map guest_id (guests (run appState [Add ''Alice'' 1700000000000, Add ''Bob'' 1700000000001])) =
       [1, 1700000000000, 1700000000001]" by code_simp
  from ids_distinct_on_fresh_clock [OF h] h r show ?thesis by blast
qed

text \<open>
  C9 as stated fails: two adds that read the same millisecond give two guests the same id.
\<close>

theorem ids_counterexample:
  "map guest_id (guests (run appState [Add ''Alice'' 1700000000000, Add ''Bob'' 1700000000000])) =
     [1, 1700000000000, 1700000000000]
   \<and> \<not> distinct (map guest_id (guests (run appState
        [Add ''Alice'' 1700000000000, Add ''Bob'' 1700000000000])))"
  by code_simp

section \<open>Failed requests of the remote variant\<close>

text \<open>
  C10. In the remote variant, a handler whose persistence call fails leaves the state
  exactly as it was: \<^verbatim>\<open>loadGuests\<close> when its request throws, its body does not parse or
  the body does not report success; \<^verbatim>\<open>addGuest\<close>, \<^verbatim>\<open>updateGuestStatus\<close> and
  \<^verbatim>\<open>removeGuest\<close> when their own request throws, its body does not parse or the server
  refuses it, and also when the reload that follows fails in one of the three ways.
\<close>

theorem failed_request_keeps_roster:
  "(reported reload = None \<longrightarrow> state (loadGuests s reload) = s)
   \<and> (\<not> accepted post \<or> reported reload = None \<longrightarrow>
        state (addGuest_remote s input post reload) = s)
   \<and> (\<not> accepted post \<or> reported reload = None \<longrightarrow>
        state (updateGuestStatus_remote s i newStatus post reload) = s)
   \<and> (\<not> accepted post \<or> reported reload = None \<longrightarrow>
        state (removeGuest_remote s i answer post reload) = s)"
  by (auto simp: loadGuests_def addGuest_remote_def updateGuestStatus_remote_def
      removeGuest_remote_def accepted_def reported_def Let_def
      split: fetched.splits option.splits if_splits)

theorem failed_request_keeps_roster_witness:
  "accepted (Resolves \<lparr>ok = True, json = Some \<lparr>success = True, data_guests = [], data_message = None\<rparr>\<rparr>)
   \<and> reported (Resolves \<lparr>ok = True, json = Some \<lparr>success = False, data_guests = [], data_message = None\<rparr>\<rparr>) = None
   \<and> state (addGuest_remote appState_remote ''Alice''
        (Resolves \<lparr>ok = True, json = Some \<lparr>success = True, data_guests = [], data_message = None\<rparr>\<rparr>)
        (Resolves \<lparr>ok = True, json = Some \<lparr>success = False, data_guests = [], data_message = None\<rparr>\<rparr>))
      = appState_remote"
proof -
  let ?post = "Resolves \<lparr>ok = True, json = Some \<lparr>success = True, data_guests = [], data_message = None\<rparr>\<rparr>"
  let ?reload = "Resolves \<lparr>ok = True, json = Some \<lparr>success = False, data_guests = [], data_message = None\<rparr>\<rparr>"
  have a: "accepted ?post" by (simp add: accepted_def)
  have r: "reported ?reload = None" by (simp add: reported_def)
  from failed_request_keeps_roster [of ?reload appState_remote ?post "''Alice''"] a r
  show ?thesis by blast
qed

end
